theory Spec2Isabelle
  imports Complex_Main "HOL-Library.Sublist"
begin

section \<open>Modelling conventions\<close>

text \<open>
  Python floats are modelled as exact rationals. The wall clock is an environment
  function: \<open>clk i\<close> is the value returned by the \<open>i\<close>-th call of \<open>time.time()\<close>, and
  every function that reads the clock threads the index of the next reading.
  \<open>time.sleep\<close> changes nothing but later readings, so it leaves no trace in the
  state (except that a negative argument raises \<open>ValueError\<close>). Loops that wait on the
  clock take fuel: one unit per loop iteration, \<open>Pending\<close> when it runs out.
\<close>

type_synonym clock = "nat \<Rightarrow> rat"

datatype py_error = ZeroDivisionError | ValueError | RuntimeError string | LLMError string

datatype 'a outcome = Returned 'a | Raised py_error | Pending

section \<open>utils/rate_limiter.py: TokenBucket\<close>

record TokenBucket =
  capacity :: int
  refill_rate :: rat
  tokens :: rat
  last_refill :: rat

text \<open>\<open>TokenBucket.__init__\<close>: a full bucket, stamped with one clock reading.\<close>

definition TokenBucket_init :: "int \<Rightarrow> rat \<Rightarrow> rat \<Rightarrow> TokenBucket" where
  "TokenBucket_init cap rate now =
     \<lparr>capacity = cap, refill_rate = rate, tokens = of_int cap, last_refill = now\<rparr>"

text \<open>\<open>TokenBucket._refill\<close>, with \<open>now\<close> the reading of \<open>time.time()\<close>.\<close>

definition refill :: "rat \<Rightarrow> TokenBucket \<Rightarrow> TokenBucket" where
  "refill now b =
     (let elapsed = now - last_refill b;
          new_tokens = elapsed * refill_rate b
      in b\<lparr>tokens := min (of_int (capacity b)) (tokens b + new_tokens),
            last_refill := now\<rparr>)"

text \<open>\<open>TokenBucket.consume\<close>: refill, then deduct if enough tokens are there.\<close>

definition consume :: "rat \<Rightarrow> int \<Rightarrow> TokenBucket \<Rightarrow> bool \<times> TokenBucket" where
  "consume now n b =
     (let b1 = refill now b
      in if tokens b1 \<ge> of_int n then (True, b1\<lparr>tokens := tokens b1 - of_int n\<rparr>)
         else (False, b1))"

text \<open>\<open>TokenBucket.available_tokens\<close>: refill and truncate towards zero (\<open>int()\<close>).\<close>

definition py_int :: "rat \<Rightarrow> int" where
  "py_int x = (if x \<ge> 0 then \<lfloor>x\<rfloor> else \<lceil>x\<rceil>)"

definition available_tokens :: "rat \<Rightarrow> TokenBucket \<Rightarrow> int \<times> TokenBucket" where
  "available_tokens now b = (let b1 = refill now b in (py_int (tokens b1), b1))"

text \<open>
  Python truthiness of an \<open>Optional[float]\<close> timeout: \<open>None\<close> and \<open>0\<close> are false.
\<close>

definition truthy :: "rat option \<Rightarrow> bool" where
  "truthy t = (case t of None \<Rightarrow> False | Some x \<Rightarrow> x \<noteq> 0)"

text \<open>
  \<open>TokenBucket.wait_for_tokens\<close>. \<open>wait_loop\<close> is the \<open>while True\<close> loop; \<open>i\<close> is the
  index of the next clock reading. The timeout test reads the clock only when the
  timeout is truthy (\<open>and\<close> short-circuits). The division raises when the refill rate
  is zero, and \<open>time.sleep\<close> raises on a negative duration.
\<close>

fun wait_loop ::
  "nat \<Rightarrow> clock \<Rightarrow> int \<Rightarrow> rat option \<Rightarrow> rat \<Rightarrow> nat \<Rightarrow> TokenBucket
     \<Rightarrow> bool outcome \<times> nat \<times> TokenBucket" where
  "wait_loop 0 clk n timeout start_time i b = (Pending, i, b)"
| "wait_loop (Suc fuel) clk n timeout start_time i b =
     (case consume (clk i) n b of
        (True, b1) \<Rightarrow> (Returned True, i + 1, b1)
      | (False, b1) \<Rightarrow>
          if truthy timeout \<and> clk (i + 1) - start_time > the timeout
          then (Returned False, i + 2, b1)
          else
            (let i2 = (if truthy timeout then i + 2 else i + 1);
                 b2 = refill (clk i2) b1;
                 deficit = of_int n - tokens b2
             in if refill_rate b2 = 0 then (Raised ZeroDivisionError, i2 + 1, b2)
                else
                  (let wait_time = deficit / refill_rate b2
                   in if min wait_time (1 / 10) < 0 then (Raised ValueError, i2 + 1, b2)
                      else wait_loop fuel clk n timeout start_time (i2 + 1) b2)))"

definition wait_for_tokens ::
  "nat \<Rightarrow> clock \<Rightarrow> int \<Rightarrow> rat option \<Rightarrow> nat \<Rightarrow> TokenBucket
     \<Rightarrow> bool outcome \<times> nat \<times> TokenBucket" where
  "wait_for_tokens fuel clk n timeout i b =
     wait_loop fuel clk n timeout (clk i) (i + 1) b"

section \<open>utils/rate_limiter.py: RateLimiter\<close>

record RateLimitConfig =
  requests_per_minute :: int
  tokens_per_minute :: int
  cfg_max_concurrent :: int

text \<open>
  \<open>request_history\<close> is a \<open>deque(maxlen=1000)\<close>; the entries keep the estimated tokens
  (the \<open>datetime.now()\<close> stamp of an entry is read by \<open>get_stats\<close> only and left out).
\<close>

record RateLimiter =
  request_bucket :: TokenBucket
  token_bucket :: TokenBucket
  active_requests :: int
  max_concurrent :: int
  request_history :: "int list"

text \<open>\<open>RateLimiter.__init__\<close>: each bucket reads the clock once when it is built.\<close>

definition RateLimiter_init :: "RateLimitConfig \<Rightarrow> rat \<Rightarrow> rat \<Rightarrow> RateLimiter" where
  "RateLimiter_init config now1 now2 =
     \<lparr>request_bucket =
        TokenBucket_init (requests_per_minute config)
          (of_int (requests_per_minute config) / 60) now1,
      token_bucket =
        TokenBucket_init (tokens_per_minute config)
          (of_int (tokens_per_minute config) / 60) now2,
      active_requests = 0,
      max_concurrent = cfg_max_concurrent config,
      request_history = []\<rparr>"

definition deque_append :: "nat \<Rightarrow> 'a list \<Rightarrow> 'a \<Rightarrow> 'a list" where
  "deque_append maxlen xs x = (let ys = xs @ [x] in drop (length ys - maxlen) ys)"

text \<open>
  The first loop of \<open>RateLimiter.acquire\<close>, waiting for a concurrency slot.
  \<open>Returned True\<close> is the \<open>break\<close> with the slot claimed, \<open>Returned False\<close> the
  \<open>return False\<close> on timeout.
\<close>

fun slot_loop ::
  "nat \<Rightarrow> clock \<Rightarrow> rat option \<Rightarrow> rat \<Rightarrow> nat \<Rightarrow> RateLimiter
     \<Rightarrow> bool outcome \<times> nat \<times> RateLimiter" where
  "slot_loop 0 clk timeout start_time i rl = (Pending, i, rl)"
| "slot_loop (Suc fuel) clk timeout start_time i rl =
     (if active_requests rl < max_concurrent rl
      then (Returned True, i, rl\<lparr>active_requests := active_requests rl + 1\<rparr>)
      else if truthy timeout \<and> clk i - start_time > the timeout
      then (Returned False, i + 1, rl)
      else slot_loop fuel clk timeout start_time (if truthy timeout then i + 1 else i) rl)"

text \<open>
  \<open>RateLimiter.acquire\<close>. Both buckets are waited for, one after the other, whatever
  the first one answered; an exception of a wait leaves the method at once, with the
  slot still counted.
\<close>

definition acquire ::
  "nat \<Rightarrow> clock \<Rightarrow> int \<Rightarrow> rat option \<Rightarrow> nat \<Rightarrow> RateLimiter
     \<Rightarrow> bool outcome \<times> nat \<times> RateLimiter" where
  "acquire fuel clk estimated_tokens timeout i rl =
     (let start_time = clk i
      in case slot_loop fuel clk timeout start_time (i + 1) rl of
           (Returned True, i1, rl1) \<Rightarrow>
             (case wait_for_tokens fuel clk 1 timeout i1 (request_bucket rl1) of
                (Returned request_acquired, i2, rb) \<Rightarrow>
                  (case wait_for_tokens fuel clk estimated_tokens timeout i2 (token_bucket rl1) of
                     (Returned token_acquired, i3, tb) \<Rightarrow>
                       (let rl2 = rl1\<lparr>request_bucket := rb, token_bucket := tb\<rparr>
                        in if \<not> (request_acquired \<and> token_acquired)
                           then (Returned False, i3,
                                 rl2\<lparr>active_requests := active_requests rl2 - 1\<rparr>)
                           else (Returned True, i3,
                                 rl2\<lparr>request_history :=
                                        deque_append 1000 (request_history rl2) estimated_tokens\<rparr>))
                   | (Raised e, i3, tb) \<Rightarrow>
                       (Raised e, i3, rl1\<lparr>request_bucket := rb, token_bucket := tb\<rparr>)
                   | (Pending, i3, tb) \<Rightarrow>
                       (Pending, i3, rl1\<lparr>request_bucket := rb, token_bucket := tb\<rparr>))
              | (Raised e, i2, rb) \<Rightarrow> (Raised e, i2, rl1\<lparr>request_bucket := rb\<rparr>)
              | (Pending, i2, rb) \<Rightarrow> (Pending, i2, rl1\<lparr>request_bucket := rb\<rparr>))
         | (out, i1, rl1) \<Rightarrow> (out, i1, rl1))"

text \<open>\<open>RateLimiter.release\<close>; \<open>actual_tokens\<close> is informational only.\<close>

definition release :: "int option \<Rightarrow> RateLimiter \<Rightarrow> RateLimiter" where
  "release actual_tokens rl = rl\<lparr>active_requests := max 0 (active_requests rl - 1)\<rparr>"

section \<open>agents/base_agent.py: BaseAgent.invoke_llm\<close>

text \<open>
  The language model is an oracle: \<open>llm attempt\<close> is what \<open>self.llm.invoke\<close> does on
  that attempt, an exception or a response with its content and the \<open>total_tokens\<close>
  of its metadata, if any. An entry of \<open>self.errors\<close> keeps its time stamp and the
  exception.
\<close>

record llm_response =
  resp_content :: string
  resp_total_tokens :: "int option"

record BaseAgent =
  rate_limiter :: RateLimiter
  total_tokens_used :: int
  total_requests :: int
  agent_errors :: "(rat \<times> py_error) list"

text \<open>
  The \<open>except Exception\<close> block of one attempt: release, then either record the error
  and re-raise (last attempt) or go on to the next attempt after the backoff sleep.
  \<open>None\<close> stands for going on.
\<close>

definition handle_failure ::
  "clock \<Rightarrow> int \<Rightarrow> int \<Rightarrow> py_error \<Rightarrow> nat \<Rightarrow> BaseAgent
     \<Rightarrow> string outcome option \<times> nat \<times> BaseAgent" where
  "handle_failure clk max_retries attempt e i ag =
     (let ag1 = ag\<lparr>rate_limiter := release None (rate_limiter ag)\<rparr>
      in if attempt = max_retries - 1
         then (Some (Raised e), i + 1, ag1\<lparr>agent_errors := agent_errors ag1 @ [(clk i, e)]\<rparr>)
         else (None, i, ag1))"

text \<open>
  The \<open>try\<close> block of one attempt followed by its handler: \<open>acquire()\<close> with its
  defaults (1000 tokens, 30 seconds), the call of the model between two clock
  readings, the counters, \<open>release()\<close>.
\<close>

definition invoke_llm_attempt ::
  "nat \<Rightarrow> clock \<Rightarrow> (nat \<Rightarrow> py_error + llm_response) \<Rightarrow> int \<Rightarrow> int \<Rightarrow> nat \<Rightarrow> BaseAgent
     \<Rightarrow> string outcome option \<times> nat \<times> BaseAgent" where
  "invoke_llm_attempt fuel clk llm max_retries attempt i ag =
     (case acquire fuel clk 1000 (Some 30) i (rate_limiter ag) of
        (Pending, i1, rl1) \<Rightarrow> (Some Pending, i1, ag\<lparr>rate_limiter := rl1\<rparr>)
      | (Raised e, i1, rl1) \<Rightarrow>
          handle_failure clk max_retries attempt e i1 (ag\<lparr>rate_limiter := rl1\<rparr>)
      | (Returned False, i1, rl1) \<Rightarrow>
          handle_failure clk max_retries attempt (RuntimeError ''Rate limit exceeded'') i1
            (ag\<lparr>rate_limiter := rl1\<rparr>)
      | (Returned True, i1, rl1) \<Rightarrow>
          (case llm (nat attempt) of
             Inl e \<Rightarrow>
               handle_failure clk max_retries attempt e (i1 + 1) (ag\<lparr>rate_limiter := rl1\<rparr>)
           | Inr response \<Rightarrow>
               (Some (Returned (resp_content response)), i1 + 2,
                ag\<lparr>rate_limiter := release None rl1,
                    total_requests := total_requests ag + 1,
                    total_tokens_used :=
                      total_tokens_used ag +
                      (case resp_total_tokens response of None \<Rightarrow> 0 | Some k \<Rightarrow> k)\<rparr>)))"

text \<open>\<open>str\<close> of an integer, as an f-string renders it.\<close>

fun digits :: "nat \<Rightarrow> string" where
  "digits n =
     (if n < 10 then [char_of (48 + n)] else digits (n div 10) @ [char_of (48 + n mod 10)])"

declare digits.simps [simp del]

definition str_int :: "int \<Rightarrow> string" where
  "str_int k = (if k < 0 then ''-'' @ digits (nat (- k)) else digits (nat k))"

text \<open>
  The \<open>for attempt in range(max_retries)\<close> loop, \<open>k\<close> attempts still to go; falling
  out of the loop raises.
\<close>

fun invoke_llm_from ::
  "nat \<Rightarrow> clock \<Rightarrow> (nat \<Rightarrow> py_error + llm_response) \<Rightarrow> int \<Rightarrow> nat \<Rightarrow> nat \<Rightarrow> BaseAgent
     \<Rightarrow> string outcome \<times> nat \<times> BaseAgent" where
  "invoke_llm_from fuel clk llm max_retries 0 i ag =
     (Raised (RuntimeError (''Failed after '' @ str_int max_retries @ '' attempts'')), i, ag)"
| "invoke_llm_from fuel clk llm max_retries (Suc k) i ag =
     (case invoke_llm_attempt fuel clk llm max_retries (max_retries - int (Suc k)) i ag of
        (Some out, i1, ag1) \<Rightarrow> (out, i1, ag1)
      | (None, i1, ag1) \<Rightarrow> invoke_llm_from fuel clk llm max_retries k i1 ag1)"

definition invoke_llm ::
  "nat \<Rightarrow> clock \<Rightarrow> (nat \<Rightarrow> py_error + llm_response) \<Rightarrow> int \<Rightarrow> nat \<Rightarrow> BaseAgent
     \<Rightarrow> string outcome \<times> nat \<times> BaseAgent" where
  "invoke_llm fuel clk llm max_retries i ag =
     invoke_llm_from fuel clk llm max_retries (nat max_retries) i ag"

section \<open>Sequences of operations on a bucket\<close>

text \<open>
  The public operations of a \<open>TokenBucket\<close> and a caller running a list of them. A
  caller may catch an exception and go on; a call that is still waiting when the fuel
  is spent ends the run, with the bucket as it is at that moment.
\<close>

datatype bucket_op = Consume int | WaitForTokens int "rat option" | Refill | AvailableTokens

fun amount :: "bucket_op \<Rightarrow> int" where
  "amount (Consume n) = n"
| "amount (WaitForTokens n t) = n"
| "amount Refill = 0"
| "amount AvailableTokens = 0"

fun run_bucket_op ::
  "nat \<Rightarrow> clock \<Rightarrow> bucket_op \<Rightarrow> nat \<Rightarrow> TokenBucket
     \<Rightarrow> bool outcome \<times> nat \<times> TokenBucket" where
  "run_bucket_op fuel clk (Consume n) i b =
     (case consume (clk i) n b of (ok, b1) \<Rightarrow> (Returned ok, i + 1, b1))"
| "run_bucket_op fuel clk (WaitForTokens n t) i b = wait_for_tokens fuel clk n t i b"
| "run_bucket_op fuel clk Refill i b = (Returned True, i + 1, refill (clk i) b)"
| "run_bucket_op fuel clk AvailableTokens i b =
     (case available_tokens (clk i) b of (k, b1) \<Rightarrow> (Returned True, i + 1, b1))"

fun run_bucket_ops ::
  "nat \<Rightarrow> clock \<Rightarrow> bucket_op list \<Rightarrow> nat \<Rightarrow> TokenBucket \<Rightarrow> nat \<times> TokenBucket" where
  "run_bucket_ops fuel clk [] i b = (i, b)"
| "run_bucket_ops fuel clk (x # xs) i b =
     (case run_bucket_op fuel clk x i b of
        (Pending, i1, b1) \<Rightarrow> (i1, b1)
      | (_, i1, b1) \<Rightarrow> run_bucket_ops fuel clk xs i1 b1)"

text \<open>The wall clock never runs backwards.\<close>

definition monotone_clock :: "clock \<Rightarrow> bool" where
  "monotone_clock clk = (\<forall>i j. i \<le> j \<longrightarrow> clk i \<le> clk j)"

text \<open>
  The invariant of a bucket whose next clock reading has index \<open>i\<close>: the tokens are
  within range, the rate is not negative and the last refill is not in the future.
\<close>

definition bucket_ok :: "clock \<Rightarrow> nat \<Rightarrow> TokenBucket \<Rightarrow> bool" where
  "bucket_ok clk i b =
     (0 \<le> tokens b \<and> tokens b \<le> of_int (capacity b) \<and> 0 \<le> refill_rate b \<and>
      last_refill b \<le> clk i)"

section \<open>Sequences of calls on a rate limiter\<close>

text \<open>
  A caller running \<open>acquire\<close> and \<open>release\<close> calls one after the other, keeping what
  each call did. As for a bucket, a call that is still waiting ends the run.
\<close>

datatype limiter_op = Acquire int "rat option" | Release "int option"

fun run_limiter_op ::
  "nat \<Rightarrow> clock \<Rightarrow> limiter_op \<Rightarrow> nat \<Rightarrow> RateLimiter
     \<Rightarrow> bool outcome \<times> nat \<times> RateLimiter" where
  "run_limiter_op fuel clk (Acquire n t) i rl = acquire fuel clk n t i rl"
| "run_limiter_op fuel clk (Release a) i rl = (Returned True, i, release a rl)"

fun run_limiter_ops ::
  "nat \<Rightarrow> clock \<Rightarrow> limiter_op list \<Rightarrow> nat \<Rightarrow> RateLimiter
     \<Rightarrow> bool outcome list \<times> nat \<times> RateLimiter" where
  "run_limiter_ops fuel clk [] i rl = ([], i, rl)"
| "run_limiter_ops fuel clk (x # xs) i rl =
     (case run_limiter_op fuel clk x i rl of
        (Pending, i1, rl1) \<Rightarrow> ([Pending], i1, rl1)
      | (out, i1, rl1) \<Rightarrow>
          (case run_limiter_ops fuel clk xs i1 rl1 of
             (outs, i2, rl2) \<Rightarrow> (out # outs, i2, rl2)))"

text \<open>The concurrency counter is within its bounds.\<close>

definition slots_ok :: "RateLimiter \<Rightarrow> bool" where
  "slots_ok rl = (0 \<le> active_requests rl \<and> active_requests rl \<le> max_concurrent rl)"

section \<open>Concrete clocks, limiters and agents\<close>

text \<open>Clocks that advance by a second, a minute or half a second per reading.\<close>

definition clock_seconds :: clock where
  "clock_seconds i = of_nat i"

definition clock_minutes :: clock where
  "clock_minutes i = 60 * of_nat i"

definition clock_half_seconds :: clock where
  "clock_half_seconds i = of_nat i / 2"

text \<open>
  Scenario C: sixty requests a minute and room for a hundred concurrent requests, so
  that sixty calls without a release in between all find a slot. The clock stands
  still during the sixty calls (302 readings: two of the constructor, five of each call) and
  advances by a tenth of a second per reading afterwards.
\<close>

definition clock_scenario_C :: clock where
  "clock_scenario_C i = (if i \<le> 302 then 0 else of_nat (i - 302) / 10)"

definition limiter_scenario_C :: RateLimiter where
  "limiter_scenario_C =
     RateLimiter_init
       \<lparr>requests_per_minute = 60, tokens_per_minute = 150000, cfg_max_concurrent = 100\<rparr> 0 0"

text \<open>The limiter of scenario C after \<open>k\<close> successful calls of \<open>acquire(1000, 0)\<close>.\<close>

definition limiter_after :: "nat \<Rightarrow> RateLimiter" where
  "limiter_after k =
     \<lparr>request_bucket =
        \<lparr>capacity = 60, refill_rate = 1, tokens = 60 - of_nat k, last_refill = 0\<rparr>,
      token_bucket =
        \<lparr>capacity = 150000, refill_rate = 2500, tokens = 150000 - 1000 * of_nat k,
         last_refill = 0\<rparr>,
      active_requests = int k, max_concurrent = 100, request_history = replicate k 1000\<rparr>"

text \<open>A limiter whose cost bucket holds 1000 tokens, built at the readings 0 and 1.\<close>

definition limiter_small :: RateLimiter where
  "limiter_small =
     RateLimiter_init
       \<lparr>requests_per_minute = 60, tokens_per_minute = 1000, cfg_max_concurrent = 5\<rparr> 0 1"

text \<open>A model that always fails, and an agent whose limiter has all five slots taken.\<close>

definition llm_down :: "nat \<Rightarrow> py_error + llm_response" where
  "llm_down attempt = Inl (LLMError ''service unavailable'')"

definition agent_all_slots_taken :: BaseAgent where
  "agent_all_slots_taken =
     \<lparr>rate_limiter = limiter_small\<lparr>active_requests := 5\<rparr>,
      total_tokens_used = 0, total_requests = 0, agent_errors = []\<rparr>"

section \<open>Strings\<close>

text \<open>
  Strings are byte strings; \<open>str.lower\<close> and \<open>str.upper\<close> act on the ASCII letters, and
  \<open>str.split()\<close> splits at ASCII whitespace. \<open>kw in s\<close> is \<open>sublist kw s\<close>.
\<close>

definition lower_char :: "char \<Rightarrow> char" where
  "lower_char c =
     (let k = (of_char c :: nat) in if 65 \<le> k \<and> k \<le> 90 then char_of (k + 32) else c)"

definition upper_char :: "char \<Rightarrow> char" where
  "upper_char c =
     (let k = (of_char c :: nat) in if 97 \<le> k \<and> k \<le> 122 then char_of (k - 32) else c)"

definition lower :: "string \<Rightarrow> string" where
  "lower s = map lower_char s"

definition upper :: "string \<Rightarrow> string" where
  "upper s = map upper_char s"

definition is_space :: "char \<Rightarrow> bool" where
  "is_space c = ((of_char c :: nat) \<in> {9, 10, 11, 12, 13, 28, 29, 30, 31, 32})"

text \<open>\<open>len(s.split())\<close>: the number of maximal runs of characters that are not whitespace.\<close>

fun count_words :: "bool \<Rightarrow> string \<Rightarrow> nat" where
  "count_words in_word [] = 0"
| "count_words in_word (c # cs) =
     (if is_space c then count_words False cs
      else (if in_word then 0 else 1) + count_words True cs)"

definition word_count :: "string \<Rightarrow> int" where
  "word_count s = int (count_words False s)"

section \<open>agents/reviewer.py: the decision of the reviewer\<close>

definition critical_keywords :: "string list" where
  "critical_keywords =
     [''plagiarism'', ''fabricated'', ''completely false'', ''dangerous misinformation'']"

definition has_critical :: "string list \<Rightarrow> bool" where
  "has_critical issues =
     list_ex (\<lambda>issue. list_ex (\<lambda>kw. sublist kw (lower issue)) critical_keywords) issues"

text \<open>\<open>ReviewerAgent._make_decision\<close>; the recommendation of the model is not read.\<close>

definition make_decision :: "rat \<Rightarrow> string list \<Rightarrow> string \<Rightarrow> string" where
  "make_decision score issues llm_decision =
     (if has_critical issues then ''reject''
      else if score \<ge> 0.85 \<and> length issues \<le> 3 then ''approve''
      else if score \<ge> 0.75 \<and> length issues \<le> 2 then ''approve''
      else if score < 0.4 then ''reject''
      else ''request_revision'')"

section \<open>state/schemas.py\<close>

text \<open>A message without its \<open>datetime.now()\<close> stamp, which nothing reads.\<close>

record AgentMessage =
  sender :: string
  recipient :: string
  content :: string
  message_type :: string

datatype pyval = PyInt int | PyFloat rat | PyStr string

record AgentState =
  task :: string
  user_context :: "(string \<times> string) list"
  current_agent :: string
  next_agent :: string
  iteration_count :: int
  workflow_status :: string
  messages :: "AgentMessage list"
  research_query :: string
  research_findings :: string
  research_sources :: "string list"
  research_quality_score :: rat
  content_type :: string
  content_draft :: string
  content_version :: int
  review_score :: rat
  review_feedback :: string
  review_decision :: string
  revision_count :: int
  final_output :: string
  metadata :: "(string \<times> pyval) list"
  errors :: "string list"
  warnings :: "string list"

record SupervisorDecision =
  d_next_agent :: string
  d_reasoning :: string
  d_instructions :: string
  d_confidence :: rat

definition create_initial_state :: "string \<Rightarrow> (string \<times> string) list \<Rightarrow> AgentState" where
  "create_initial_state t context =
     \<lparr>task = t, user_context = context, current_agent = ''supervisor'',
      next_agent = ''supervisor'', iteration_count = 0, workflow_status = ''running'',
      messages = [], research_query = [], research_findings = [], research_sources = [],
      research_quality_score = 0, content_type = ''blog post'', content_draft = [],
      content_version = 0, review_score = 0, review_feedback = [],
      review_decision = ''request_revision'', revision_count = 0, final_output = [],
      metadata = [], errors = [], warnings = []\<rparr>"

text \<open>
  A partial update returned by a node is a dictionary: a list of entries, one per key.
  \<open>dict_update\<close> is \<open>dict.update\<close>. The graph merges an update into the state key by
  key: the channels annotated with \<open>add\<close> (\<open>messages\<close>, \<open>errors\<close>, \<open>warnings\<close>) append,
  every other channel is overwritten.
\<close>

datatype field_update =
    Current_agent string
  | Next_agent string
  | Iteration_count int
  | Workflow_status string
  | Messages "AgentMessage list"
  | Research_query string
  | Research_findings string
  | Research_sources "string list"
  | Research_quality_score rat
  | Content_type string
  | Content_draft string
  | Content_version int
  | Review_score rat
  | Review_feedback string
  | Review_decision string
  | Revision_count int
  | Final_output string
  | Metadata "(string \<times> pyval) list"
  | Errors "string list"
  | Warnings "string list"

fun key :: "field_update \<Rightarrow> string" where
  "key (Current_agent v) = ''current_agent''"
| "key (Next_agent v) = ''next_agent''"
| "key (Iteration_count v) = ''iteration_count''"
| "key (Workflow_status v) = ''workflow_status''"
| "key (Messages v) = ''messages''"
| "key (Research_query v) = ''research_query''"
| "key (Research_findings v) = ''research_findings''"
| "key (Research_sources v) = ''research_sources''"
| "key (Research_quality_score v) = ''research_quality_score''"
| "key (Content_type v) = ''content_type''"
| "key (Content_draft v) = ''content_draft''"
| "key (Content_version v) = ''content_version''"
| "key (Review_score v) = ''review_score''"
| "key (Review_feedback v) = ''review_feedback''"
| "key (Review_decision v) = ''review_decision''"
| "key (Revision_count v) = ''revision_count''"
| "key (Final_output v) = ''final_output''"
| "key (Metadata v) = ''metadata''"
| "key (Errors v) = ''errors''"
| "key (Warnings v) = ''warnings''"

definition dict_update :: "field_update list \<Rightarrow> field_update list \<Rightarrow> field_update list" where
  "dict_update d e = filter (\<lambda>u. key u \<notin> set (map key e)) d @ e"

fun merge_field :: "AgentState \<Rightarrow> field_update \<Rightarrow> AgentState" where
  "merge_field s (Current_agent v) = s\<lparr>current_agent := v\<rparr>"
| "merge_field s (Next_agent v) = s\<lparr>next_agent := v\<rparr>"
| "merge_field s (Iteration_count v) = s\<lparr>iteration_count := v\<rparr>"
| "merge_field s (Workflow_status v) = s\<lparr>workflow_status := v\<rparr>"
| "merge_field s (Messages v) = s\<lparr>messages := messages s @ v\<rparr>"
| "merge_field s (Research_query v) = s\<lparr>research_query := v\<rparr>"
| "merge_field s (Research_findings v) = s\<lparr>research_findings := v\<rparr>"
| "merge_field s (Research_sources v) = s\<lparr>research_sources := v\<rparr>"
| "merge_field s (Research_quality_score v) = s\<lparr>research_quality_score := v\<rparr>"
| "merge_field s (Content_type v) = s\<lparr>content_type := v\<rparr>"
| "merge_field s (Content_draft v) = s\<lparr>content_draft := v\<rparr>"
| "merge_field s (Content_version v) = s\<lparr>content_version := v\<rparr>"
| "merge_field s (Review_score v) = s\<lparr>review_score := v\<rparr>"
| "merge_field s (Review_feedback v) = s\<lparr>review_feedback := v\<rparr>"
| "merge_field s (Review_decision v) = s\<lparr>review_decision := v\<rparr>"
| "merge_field s (Revision_count v) = s\<lparr>revision_count := v\<rparr>"
| "merge_field s (Final_output v) = s\<lparr>final_output := v\<rparr>"
| "merge_field s (Metadata v) = s\<lparr>metadata := v\<rparr>"
| "merge_field s (Errors v) = s\<lparr>errors := errors s @ v\<rparr>"
| "merge_field s (Warnings v) = s\<lparr>warnings := warnings s @ v\<rparr>"

definition apply_update :: "AgentState \<Rightarrow> field_update list \<Rightarrow> AgentState" where
  "apply_update s d = foldl merge_field s d"

definition add_message ::
  "AgentState \<Rightarrow> string \<Rightarrow> string \<Rightarrow> string \<Rightarrow> string \<Rightarrow> field_update list" where
  "add_message s snd_name rcp text mtype =
     [Messages [\<lparr>sender = snd_name, recipient = rcp, content = text, message_type = mtype\<rparr>]]"

definition increment_iteration :: "AgentState \<Rightarrow> field_update list" where
  "increment_iteration s = [Iteration_count (iteration_count s + 1)]"

definition update_workflow_status :: "string \<Rightarrow> field_update list" where
  "update_workflow_status status = [Workflow_status status]"

section \<open>The environment of the workflow\<close>

text \<open>
  What the agents obtain from outside is an oracle of the state they are called with:
  \<^item> \<open>router\<close>: the decision parsed from the model's answer in
    \<open>_make_routing_decision\<close>, \<open>None\<close> when the call or the parsing fails;
  \<^item> \<open>researcher_run\<close>, \<open>creator_run\<close>, \<open>reviewer_run\<close>: the outcome of the work inside the
    \<open>try\<close> block of each worker, \<open>Inl\<close> the text of the exception;
  \<^item> \<open>fmt2f\<close>, \<open>fmt_int\<close>, \<open>format_feedback\<close>: the renderings of numbers and of a
    review in messages.
  Every supervisor visit of a run sees a different \<open>iteration_count\<close>, so an oracle of
  the state can answer differently at every step. \<open>max_iterations\<close> is the setting.
\<close>

record ResearchOutput =
  ro_findings :: string
  ro_sources :: "string list"
  ro_quality_score :: rat

record ContentOutput =
  co_content :: string
  co_word_count :: int
  co_sources_cited :: int

record ValidationResult =
  vr_score :: rat
  vr_issues :: "string list"
  vr_suggestions :: "string list"

text \<open>The dictionary of the model's review; a missing criterion is \<open>None\<close>.\<close>

record LLMReview =
  factual_accuracy :: "rat option"
  completeness :: "rat option"
  clarity :: "rat option"
  engagement :: "rat option"
  citations :: "rat option"
  lr_strengths :: "string list"
  lr_issues :: "string list"
  lr_recommendations :: "string list"
  lr_decision :: "string option"

record ReviewOutput =
  overall_score :: rat
  criterion_scores :: "(string \<times> rat) list"
  strengths :: "string list"
  issues :: "string list"
  recommendations :: "string list"
  decision :: string

record Env =
  max_iterations :: int
  router :: "AgentState \<Rightarrow> SupervisorDecision option"
  researcher_run :: "AgentState \<Rightarrow> string + ResearchOutput"
  creator_run :: "AgentState \<Rightarrow> string + ContentOutput"
  reviewer_run :: "AgentState \<Rightarrow> string + ValidationResult \<times> LLMReview"
  fmt2f :: "rat \<Rightarrow> string"
  fmt_int :: "int \<Rightarrow> string"
  format_feedback :: "ReviewOutput \<Rightarrow> string"

section \<open>agents/supervisor.py\<close>

text \<open>The revision limit is the literal 3 throughout the supervisor.\<close>

definition max_revisions :: int where
  "max_revisions = 3"

text \<open>\<open>SupervisorAgent._fallback_decision\<close>.\<close>

definition fallback_decision :: "int \<Rightarrow> AgentState \<Rightarrow> SupervisorDecision" where
  "fallback_decision max_iter s =
     (if iteration_count s \<ge> max_iter
      then \<lparr>d_next_agent = ''finish'', d_reasoning = ''Maximum iterations reached'',
            d_instructions = ''Complete workflow'', d_confidence = 1\<rparr>
      else if revision_count s \<ge> 3
      then \<lparr>d_next_agent = ''finish'',
            d_reasoning = ''Maximum revisions reached, accepting current content'',
            d_instructions = ''Finalize output with current content'', d_confidence = 0.8\<rparr>
      else if research_findings s = []
      then \<lparr>d_next_agent = ''researcher'', d_reasoning = ''No research completed yet'',
            d_instructions = ''Research the topic: '' @ task s, d_confidence = 0.9\<rparr>
      else if content_draft s = []
      then \<lparr>d_next_agent = ''content_creator'', d_reasoning = ''Research complete, need content'',
            d_instructions = ''Create content based on research findings'', d_confidence = 0.9\<rparr>
      else if review_feedback s = []
      then \<lparr>d_next_agent = ''reviewer'', d_reasoning = ''Content created, needs review'',
            d_instructions = ''Review content quality and accuracy'', d_confidence = 0.9\<rparr>
      else if review_decision s = ''request_revision'' \<and> revision_count s < 3
      then \<lparr>d_next_agent = ''content_creator'', d_reasoning = ''Revision requested by reviewer'',
            d_instructions =
              ''Revise content based on feedback: '' @ take 200 (review_feedback s),
            d_confidence = 0.8\<rparr>
      else \<lparr>d_next_agent = ''finish'',
            d_reasoning = ''Workflow complete or max revisions reached'',
            d_instructions = ''Finalize output'', d_confidence = 0.7\<rparr>)"

text \<open>\<open>SupervisorAgent._make_routing_decision\<close>: the parsed decision, or the fallback.\<close>

definition make_routing_decision :: "Env \<Rightarrow> AgentState \<Rightarrow> SupervisorDecision" where
  "make_routing_decision env s =
     (case router env s of
        Some d \<Rightarrow> d
      | None \<Rightarrow> fallback_decision (max_iterations env) s)"

text \<open>The test at the head of \<open>SupervisorAgent.execute\<close>.\<close>

definition should_finish :: "Env \<Rightarrow> AgentState \<Rightarrow> bool" where
  "should_finish env s =
     (iteration_count s \<ge> max_iterations env \<or> revision_count s \<ge> 3 \<or>
      (review_decision s = ''approve'' \<and> final_output s \<noteq> []))"

text \<open>
  \<open>SupervisorAgent.execute\<close>. No statement of its \<open>try\<close> block raises on a state of
  this type (\<open>_make_routing_decision\<close> catches its own exceptions), so the \<open>except\<close>
  branch is not part of the model; \<open>decision_history\<close> is never read.
\<close>

definition supervisor_execute :: "Env \<Rightarrow> AgentState \<Rightarrow> field_update list" where
  "supervisor_execute env s =
     (if should_finish env s
      then
        [Current_agent ''supervisor'', Next_agent ''finish'', Workflow_status ''completed''] @
        (if content_draft s \<noteq> [] \<and> final_output s = []
         then [Final_output (content_draft s),
               Metadata
                 [(''word_count'', PyInt (word_count (content_draft s))),
                  (''quality_score'', PyFloat (review_score s)),
                  (''sources_used'', PyInt (int (length (research_sources s)))),
                  (''revisions'', PyInt (revision_count s)),
                  (''status'', PyStr ''completed_with_max_iterations'')]]
         else [])
      else
        (let decision = make_routing_decision env s
         in dict_update
              [Current_agent ''supervisor'', Next_agent (d_next_agent decision)]
              (add_message s ''supervisor'' (d_next_agent decision) (d_instructions decision)
                 ''task'')))"

section \<open>The workers\<close>

text \<open>\<open>ResearcherAgent.execute\<close>.\<close>

definition researcher_execute :: "Env \<Rightarrow> AgentState \<Rightarrow> field_update list" where
  "researcher_execute env s =
     (case researcher_run env s of
        Inr out \<Rightarrow>
          dict_update
            [Current_agent ''researcher'',
             Research_query (if research_query s \<noteq> [] then research_query s else task s),
             Research_findings (ro_findings out),
             Research_sources (ro_sources out),
             Research_quality_score (ro_quality_score out)]
            (add_message s ''researcher'' ''supervisor''
               (''Research completed. Quality score: '' @ fmt2f env (ro_quality_score out))
               ''result'')
      | Inl e \<Rightarrow>
          [Current_agent ''researcher'', Research_findings (''Research failed: '' @ e),
           Research_sources [], Research_quality_score 0,
           Errors [''Research error: '' @ e]])"

text \<open>\<open>ContentCreatorAgent.execute\<close>.\<close>

definition content_creator_execute :: "Env \<Rightarrow> AgentState \<Rightarrow> field_update list" where
  "content_creator_execute env s =
     (case creator_run env s of
        Inr out \<Rightarrow>
          dict_update
            [Current_agent ''content_creator'',
             Content_draft (co_content out),
             Content_version (content_version s + 1),
             Content_type (content_type s)]
            (add_message s ''content_creator'' ''supervisor''
               (''Content created ('' @ fmt_int env (co_word_count out) @ '' words, '' @
                fmt_int env (co_sources_cited out) @ '' sources cited)'')
               ''result'')
      | Inl e \<Rightarrow>
          [Current_agent ''content_creator'', Content_draft (''Content creation failed: '' @ e),
           Errors [''Content creation error: '' @ e]])"

text \<open>\<open>ReviewerAgent._combine_reviews\<close>.\<close>

definition criterion :: "rat option \<Rightarrow> rat" where
  "criterion v = (case v of None \<Rightarrow> 5 | Some x \<Rightarrow> x) / 10"

definition combine_reviews :: "ValidationResult \<Rightarrow> LLMReview \<Rightarrow> ReviewOutput" where
  "combine_reviews validation_result llm_review =
     (let fa = criterion (factual_accuracy llm_review);
          co = criterion (completeness llm_review);
          cl = criterion (clarity llm_review);
          en = criterion (engagement llm_review);
          ci = criterion (citations llm_review);
          overall = fa * 0.35 + co * 0.25 + cl * 0.20 + en * 0.15 + ci * 0.05;
          final0 = overall * 0.7 + vr_score validation_result * 0.3;
          final_score = (if overall \<ge> 0.85 then min (final0 + 0.05) 1 else final0);
          all_issues = vr_issues validation_result @ lr_issues llm_review;
          all_strengths = lr_strengths llm_review;
          all_recommendations =
            vr_suggestions validation_result @ lr_recommendations llm_review;
          dec = make_decision final_score all_issues
                  (case lr_decision llm_review of None \<Rightarrow> ''request_revision'' | Some d \<Rightarrow> d)
      in \<lparr>overall_score = final_score,
          criterion_scores =
            [(''factual_accuracy'', fa), (''completeness'', co), (''clarity'', cl),
             (''engagement'', en), (''citations'', ci)],
          strengths = take 5 all_strengths,
          issues = take 5 all_issues,
          recommendations = take 5 all_recommendations,
          decision = dec\<rparr>)"

text \<open>\<open>ReviewerAgent.execute\<close>.\<close>

definition reviewer_execute :: "Env \<Rightarrow> AgentState \<Rightarrow> field_update list" where
  "reviewer_execute env s =
     (case reviewer_run env s of
        Inr (validation_result, llm_review) \<Rightarrow>
          (let review_output = combine_reviews validation_result llm_review;
               updates =
                 [Current_agent ''reviewer'',
                  Review_score (overall_score review_output),
                  Review_feedback (format_feedback env review_output),
                  Review_decision (decision review_output),
                  Revision_count
                    (revision_count s +
                     (if decision review_output = ''request_revision'' then 1 else 0))];
               updates2 =
                 (if decision review_output = ''approve''
                  then dict_update updates
                         [Final_output (content_draft s),
                          Metadata
                            [(''word_count'', PyInt (word_count (content_draft s))),
                             (''quality_score'', PyFloat (overall_score review_output)),
                             (''sources_used'', PyInt (int (length (research_sources s)))),
                             (''revisions'', PyInt (revision_count s))]]
                  else updates)
           in dict_update updates2
                (add_message s ''reviewer'' ''supervisor''
                   (''Review complete: '' @ upper (decision review_output) @ '' (score: '' @
                    fmt2f env (overall_score review_output) @ '')'')
                   ''result''))
      | Inl e \<Rightarrow>
          [Current_agent ''reviewer'', Review_score 0,
           Review_feedback (''Review failed: '' @ e), Review_decision ''reject'',
           Errors [''Review error: '' @ e]])"

section \<open>workflows/graph_builder.py\<close>

text \<open>\<open>WorkflowBuilder._supervisor_node\<close>.\<close>

definition supervisor_node :: "Env \<Rightarrow> AgentState \<Rightarrow> field_update list" where
  "supervisor_node env s =
     (if iteration_count s \<ge> max_iterations env
      then [Next_agent ''finish'', Workflow_status ''completed'',
            Warnings [''Max iterations reached'']]
      else dict_update (supervisor_execute env s) (increment_iteration s))"

text \<open>\<open>WorkflowBuilder._route_from_supervisor\<close>: \<open>route_map.get(next_agent, 'finish')\<close>.\<close>

definition route_from_supervisor :: "AgentState \<Rightarrow> string" where
  "route_from_supervisor s =
     (let na = next_agent s
      in if na = ''researcher'' then ''researcher''
         else if na = ''content_creator'' then ''content_creator''
         else if na = ''reviewer'' then ''reviewer''
         else if na = ''human_review'' then ''finish''
         else ''finish'')"

text \<open>
  The compiled graph: the supervisor node, the conditional edge, the chosen worker node
  and back to the supervisor, until the edge leads to \<open>END\<close>. One unit of fuel is one
  visit of the supervisor node; \<open>None\<close> is a run that has not reached \<open>END\<close> when the
  fuel is spent. The recursion limit of the graph library is not part of the model.
\<close>

fun run_graph :: "nat \<Rightarrow> Env \<Rightarrow> AgentState \<Rightarrow> AgentState option" where
  "run_graph 0 env s = None"
| "run_graph (Suc fuel) env s =
     (let s1 = apply_update s (supervisor_node env s);
          nxt = route_from_supervisor s1
      in if nxt = ''researcher''
         then run_graph fuel env (apply_update s1 (researcher_execute env s1))
         else if nxt = ''content_creator''
         then run_graph fuel env (apply_update s1 (content_creator_execute env s1))
         else if nxt = ''reviewer''
         then run_graph fuel env (apply_update s1 (reviewer_execute env s1))
         else Some s1)"

section \<open>Concrete states\<close>

text \<open>A state with nothing researched and the three revisions spent.\<close>

definition state_revisions_spent :: AgentState where
  "state_revisions_spent =
     (create_initial_state ''Explain token buckets'' [])\<lparr>revision_count := 3\<rparr>"

section \<open>Scenarios of the control loop\<close>

text \<open>The number of messages a given agent has sent.\<close>

definition sent_by :: "string \<Rightarrow> AgentState \<Rightarrow> nat" where
  "sent_by a s = length (filter (\<lambda>m. sender m = a) (messages s))"

text \<open>A router whose every answer parses to a decision for the content creator.\<close>

definition always_drafter :: "Env \<Rightarrow> bool" where
  "always_drafter env =
     (\<forall>s. \<exists>d. router env s = Some d \<and> d_next_agent d = ''content_creator'')"

text \<open>
  What holds after \<open>n\<close> rounds of scenario A: \<open>n\<close> iterations counted, nothing reviewed,
  no final output, one task message of the supervisor per round and at most one result
  message of the content creator per round.
\<close>

definition scenario_A_inv :: "nat \<Rightarrow> AgentState \<Rightarrow> bool" where
  "scenario_A_inv n s =
     (iteration_count s = int n \<and> revision_count s = 0 \<and>
      review_decision s = ''request_revision'' \<and> final_output s = [] \<and>
      workflow_status s = ''running'' \<and> sent_by ''supervisor'' s = n \<and>
      sent_by ''content_creator'' s \<le> n \<and>
      length (messages s) = n + sent_by ''content_creator'' s)"

definition drafter_decision :: SupervisorDecision where
  "drafter_decision =
     \<lparr>d_next_agent = ''content_creator'', d_reasoning = ''Draft the content'',
      d_instructions = ''Write the draft'', d_confidence = 1\<rparr>"

definition researcher_decision :: SupervisorDecision where
  "researcher_decision =
     \<lparr>d_next_agent = ''researcher'', d_reasoning = ''More research'',
      d_instructions = ''Research the topic again'', d_confidence = 1\<rparr>"

text \<open>
  An environment in which research and drafting succeed and the review fails, with five
  iterations allowed; scenario A puts a router in front that always chooses the content
  creator with confidence 1, the other one a router that always chooses the researcher,
  with three iterations allowed.
\<close>

definition env_base :: Env where
  "env_base =
     \<lparr>max_iterations = 5,
      router = (\<lambda>s. None),
      researcher_run =
        (\<lambda>s. Inr \<lparr>ro_findings = ''Findings'', ro_sources = [''https://example.org''],
                   ro_quality_score = 0.8\<rparr>),
      creator_run =
        (\<lambda>s. Inr \<lparr>co_content = ''A draft of five words'', co_word_count = 5,
                   co_sources_cited = 0\<rparr>),
      reviewer_run = (\<lambda>s. Inl ''validator unavailable''),
      fmt2f = (\<lambda>x. ''0.80''),
      fmt_int = (\<lambda>k. ''5''),
      format_feedback = (\<lambda>r. ''=== CONTENT REVIEW ==='')\<rparr>"

definition env_scenario_A :: Env where
  "env_scenario_A = env_base\<lparr>router := (\<lambda>s. Some drafter_decision)\<rparr>"

definition env_always_researcher :: Env where
  "env_always_researcher =
     env_base\<lparr>max_iterations := 3, router := (\<lambda>s. Some researcher_decision)\<rparr>"

definition initial_state :: AgentState where
  "initial_state = create_initial_state ''Explain token buckets'' []"




section \<open>TokenBucket.consume is all-or-nothing\<close>

text \<open>
  C10. For every requested amount \<open>n\<close>, \<open>consume\<close> either returns True and the token
  count is the refilled count minus exactly \<open>n\<close>, or returns False and the token count
  is the refilled count; capacity, rate and the refill stamp are those of the refill
  in both cases.
\<close>

theorem consume_all_or_nothing:
  "(fst (consume now n b) \<and>
      tokens (snd (consume now n b)) = tokens (refill now b) - of_int n \<or>
    \<not> fst (consume now n b) \<and>
      tokens (snd (consume now n b)) = tokens (refill now b)) \<and>
   capacity (snd (consume now n b)) = capacity b \<and>
   refill_rate (snd (consume now n b)) = refill_rate b \<and>
   last_refill (snd (consume now n b)) = now"
  by (simp add: consume_def refill_def Let_def)

theorem consume_all_or_nothing_witness:
  "fst (consume 2 7 (TokenBucket_init 60 1 0)) \<and>
   tokens (snd (consume 2 7 (TokenBucket_init 60 1 0))) = 53 \<and>
   \<not> fst (consume 2 61 (TokenBucket_init 60 1 0)) \<and>
   tokens (snd (consume 2 61 (TokenBucket_init 60 1 0))) = 60"
  using consume_all_or_nothing [of 2 7 "TokenBucket_init 60 1 0"]
        consume_all_or_nothing [of 2 61 "TokenBucket_init 60 1 0"]
  by (simp add: consume_def refill_def TokenBucket_init_def Let_def)

section \<open>The bucket invariant\<close>

lemma refill_ok:
  assumes "monotone_clock clk" "bucket_ok clk i b" "i \<le> j" "j < k"
  shows "bucket_ok clk k (refill (clk j) b)"
proof -
  have e: "0 \<le> clk j - last_refill b"
    using assms by (auto simp: monotone_clock_def bucket_ok_def dest: order_trans)
  have "0 \<le> (clk j - last_refill b) * refill_rate b"
    using e assms(2) by (simp add: bucket_ok_def)
  moreover have "clk j \<le> clk k" using assms(1,4) by (simp add: monotone_clock_def)
  ultimately show ?thesis
    using assms(2) by (simp add: bucket_ok_def refill_def Let_def min_def)
qed

lemma consume_ok:
  assumes "monotone_clock clk" "bucket_ok clk i b" "i \<le> j" "j < k" "0 \<le> n"
  shows "bucket_ok clk k (snd (consume (clk j) n b))"
proof -
  have "bucket_ok clk k (refill (clk j) b)" using assms refill_ok by blast
  then show ?thesis using assms(5)
    by (auto simp: consume_def Let_def bucket_ok_def refill_def)
qed

lemma wait_loop_ok:
  assumes "monotone_clock clk" "0 \<le> n"
  shows "bucket_ok clk i b \<Longrightarrow> wait_loop fuel clk n t st i b = (out, i', b') \<Longrightarrow> bucket_ok clk i' b' \<and> i \<le> i'"
proof (induction fuel arbitrary: i b)
  case 0
  then show ?case by simp
next
  case (Suc fuel)
  obtain ok b1 where c: "consume (clk i) n b = (ok, b1)" by (cases "consume (clk i) n b")
  have b1: "\<And>k. i < k \<Longrightarrow> bucket_ok clk k b1"
    using consume_ok [OF assms(1) Suc.prems(1) order_refl _ assms(2)] c by simp
  show ?case
  proof (cases ok)
    case True
    then show ?thesis using Suc.prems(2) c b1 [of "i + 1"] by simp
  next
    case False
    define i2 where "i2 = (if truthy t then i + 2 else i + 1)"
    have i2: "i < i2" by (simp add: i2_def)
    define b2 where "b2 = refill (clk i2) b1"
    have b2: "bucket_ok clk (i2 + 1) b2"
      unfolding b2_def using refill_ok [OF assms(1) b1 [OF i2] order_refl] by simp
    show ?thesis
    proof (cases "truthy t \<and> clk (i + 1) - st > the t")
      case True
      then show ?thesis using Suc.prems(2) c False b1 [of "i + 2"] by simp
    next
      case nt: False
      show ?thesis
      proof (cases "refill_rate b2 = 0 \<or> min ((of_int n - tokens b2) / refill_rate b2) (1 / 10) < 0")
        case True
        then show ?thesis using Suc.prems(2) c False nt b2 i2
          by (auto simp: Let_def i2_def [symmetric] b2_def [symmetric] split: if_splits)
      next
        case cont: False
        then have "wait_loop fuel clk n t st (i2 + 1) b2 = (out, i', b')"
          using Suc.prems(2) c False nt
          by (auto simp: Let_def i2_def [symmetric] b2_def [symmetric] split: if_splits)
        from Suc.IH [OF b2 this] show ?thesis using i2 by simp
      qed
    qed
  qed
qed

lemma refill_capacity: "capacity (refill now b) = capacity b"
  by (simp add: refill_def Let_def)

lemma consume_capacity: "capacity (snd (consume now n b)) = capacity b"
  by (simp add: consume_def refill_def Let_def)

lemma wait_loop_capacity:
  "wait_loop fuel clk n t st i b = (out, i', b') \<Longrightarrow> capacity b' = capacity b"
proof (induction fuel arbitrary: i b)
  case 0
  then show ?case by simp
next
  case (Suc fuel)
  obtain ok b1 where c: "consume (clk i) n b = (ok, b1)" by (cases "consume (clk i) n b")
  then have b1: "capacity b1 = capacity b" using consume_capacity [of "clk i" n b] by simp
  show ?case
  proof (cases ok)
    case True
    then show ?thesis using Suc.prems c b1 by simp
  next
    case False
    then show ?thesis
      using Suc.prems c b1
      by (auto simp: Let_def refill_capacity split: if_splits dest!: Suc.IH)
  qed
qed

lemma run_bucket_op_ok:
  assumes "monotone_clock clk" "0 \<le> amount x" "bucket_ok clk i b"
    and "run_bucket_op fuel clk x i b = (out, i', b')"
  shows "bucket_ok clk i' b' \<and> capacity b' = capacity b"
proof (cases x)
  case (Consume n)
  then show ?thesis
    using assms consume_ok [OF assms(1,3) order_refl, of "i + 1" n] consume_capacity [of "clk i" n b]
    by (auto split: prod.splits)
next
  case (WaitForTokens n t)
  have "bucket_ok clk (i + 1) b"
    using assms(1,3) by (auto simp: bucket_ok_def monotone_clock_def intro: order_trans [of _ "clk i"])
  then show ?thesis
    using assms WaitForTokens wait_loop_ok [of clk n "i + 1" b fuel t "clk i" out i' b']
      wait_loop_capacity [of fuel clk n t "clk i" "i + 1" b out i' b']
    by (simp add: wait_for_tokens_def)
next
  case Refill
  then show ?thesis
    using assms refill_ok [OF assms(1,3) order_refl, of "i + 1"] by (auto simp: refill_capacity)
next
  case AvailableTokens
  then show ?thesis
    using assms refill_ok [OF assms(1,3) order_refl, of "i + 1"]
    by (auto simp: refill_capacity available_tokens_def Let_def)
qed

lemma run_bucket_ops_ok:
  assumes "monotone_clock clk"
  shows "\<forall>x \<in> set ops. 0 \<le> amount x \<Longrightarrow> bucket_ok clk i b \<Longrightarrow>
         run_bucket_ops fuel clk ops i b = (i', b') \<Longrightarrow>
         bucket_ok clk i' b' \<and> capacity b' = capacity b"
proof (induction ops arbitrary: i b)
  case Nil
  then show ?case by simp
next
  case (Cons x xs)
  obtain out i1 b1 where r: "run_bucket_op fuel clk x i b = (out, i1, b1)"
    by (cases "run_bucket_op fuel clk x i b")
  have ok1: "bucket_ok clk i1 b1 \<and> capacity b1 = capacity b"
    using run_bucket_op_ok [OF assms _ Cons.prems(2) r] Cons.prems(1) by simp
  show ?case
  proof (cases "out = Pending")
    case True
    then show ?thesis using Cons.prems(3) r ok1 by simp
  next
    case False
    then have "run_bucket_ops fuel clk xs i1 b1 = (i', b')"
      using Cons.prems(3) r by (cases out) simp_all
    then show ?thesis using Cons.IH [of i1 b1] Cons.prems(1) ok1 by simp
  qed
qed

text \<open>
  C7. Whatever operations are run on a bucket built by \<open>TokenBucket.__init__\<close>, and
  wherever a wait is cut off, the token count is between 0 and the capacity. The clock
  must not run backwards, the capacity and the rate must not be negative, and no
  operation may ask for a negative amount.
\<close>

theorem bucket_tokens_within_capacity:
  assumes "monotone_clock clk" and "0 \<le> cap" and "0 \<le> rate"
    and "\<forall>x \<in> set ops. 0 \<le> amount x"
  shows "0 \<le> tokens (snd (run_bucket_ops fuel clk ops 1 (TokenBucket_init cap rate (clk 0)))) \<and>
         tokens (snd (run_bucket_ops fuel clk ops 1 (TokenBucket_init cap rate (clk 0)))) \<le> of_int cap"
proof -
  have init: "bucket_ok clk 1 (TokenBucket_init cap rate (clk 0))"
    using assms(1-3) by (simp add: bucket_ok_def TokenBucket_init_def monotone_clock_def)
  obtain i' b' where r: "run_bucket_ops fuel clk ops 1 (TokenBucket_init cap rate (clk 0)) = (i', b')"
    by (cases "run_bucket_ops fuel clk ops 1 (TokenBucket_init cap rate (clk 0))")
  from run_bucket_ops_ok [OF assms(1,4) init r] show ?thesis
    using r by (simp add: bucket_ok_def TokenBucket_init_def)
qed

theorem bucket_tokens_within_capacity_witness:
  "snd (run_bucket_ops 50 clock_half_seconds
          [Consume 50, WaitForTokens 20 (Some 3), Refill, Consume 100, AvailableTokens] 1
          (TokenBucket_init 60 1 (clock_half_seconds 0))) =
     \<lparr>capacity = 60, refill_rate = 1, tokens = 16, last_refill = 13 / 2\<rparr> \<and>
   0 \<le> tokens (snd (run_bucket_ops 50 clock_half_seconds
          [Consume 50, WaitForTokens 20 (Some 3), Refill, Consume 100, AvailableTokens] 1
          (TokenBucket_init 60 1 (clock_half_seconds 0)))) \<and>
   tokens (snd (run_bucket_ops 50 clock_half_seconds
          [Consume 50, WaitForTokens 20 (Some 3), Refill, Consume 100, AvailableTokens] 1
          (TokenBucket_init 60 1 (clock_half_seconds 0)))) \<le> of_int 60"
proof -
  have "snd (run_bucket_ops 50 clock_half_seconds
          [Consume 50, WaitForTokens 20 (Some 3), Refill, Consume 100, AvailableTokens] 1
          (TokenBucket_init 60 1 (clock_half_seconds 0))) =
     \<lparr>capacity = 60, refill_rate = 1, tokens = 16, last_refill = 13 / 2\<rparr>"
    by code_simp
  moreover have "0 \<le> tokens (snd (run_bucket_ops 50 clock_half_seconds
          [Consume 50, WaitForTokens 20 (Some 3), Refill, Consume 100, AvailableTokens] 1
          (TokenBucket_init 60 1 (clock_half_seconds 0)))) \<and>
   tokens (snd (run_bucket_ops 50 clock_half_seconds
          [Consume 50, WaitForTokens 20 (Some 3), Refill, Consume 100, AvailableTokens] 1
          (TokenBucket_init 60 1 (clock_half_seconds 0)))) \<le> of_int 60"
    by (rule bucket_tokens_within_capacity)
       (simp_all add: monotone_clock_def clock_half_seconds_def divide_right_mono)
  ultimately show ?thesis by blast
qed

section \<open>The rate limiter\<close>

lemma slot_loop_result:
  "slot_loop fuel clk t st i rl = (out, i', rl') \<Longrightarrow>
     (out = Returned True \<and> active_requests rl < max_concurrent rl \<and>
      rl' = rl\<lparr>active_requests := active_requests rl + 1\<rparr>) \<or>
     (out \<noteq> Returned True \<and> rl' = rl)"
  by (induction fuel arbitrary: i) (auto split: if_splits)

lemma slot_loop_not_False:
  "\<not> truthy t \<Longrightarrow> fst (slot_loop fuel clk t st i rl) \<noteq> Returned False"
  by (induction fuel arbitrary: i) auto

lemma wait_loop_not_False:
  "\<not> truthy t \<Longrightarrow> fst (wait_loop fuel clk n t st i b) \<noteq> Returned False"
proof (induction fuel arbitrary: i b)
  case 0
  then show ?case by simp
next
  case (Suc fuel)
  then show ?case
    by (cases "consume (clk i) n b") (auto simp: Let_def split: bool.splits)
qed

lemma wait_for_tokens_not_False:
  "\<not> truthy t \<Longrightarrow> wait_for_tokens fuel clk n t i b \<noteq> (Returned False, i', b')"
  using wait_loop_not_False [of t fuel clk n "clk i" "i + 1" b]
  by (auto simp: wait_for_tokens_def)

lemma acquire_active:
  assumes "acquire fuel clk n t i rl = (out, i', rl')"
  shows "max_concurrent rl' = max_concurrent rl \<and>
         (out = Returned False \<longrightarrow> active_requests rl' = active_requests rl) \<and>
         (out = Returned True \<longrightarrow> active_requests rl' = active_requests rl + 1) \<and>
         (active_requests rl' = active_requests rl \<or>
          active_requests rl' = active_requests rl + 1 \<and> active_requests rl < max_concurrent rl)"
proof -
  obtain o1 i1 rl1 where s: "slot_loop fuel clk t (clk i) (i + 1) rl = (o1, i1, rl1)"
    by (cases "slot_loop fuel clk t (clk i) (i + 1) rl")
  from slot_loop_result [OF s] show ?thesis
  proof
    assume a: "o1 = Returned True \<and> active_requests rl < max_concurrent rl \<and>
               rl1 = rl\<lparr>active_requests := active_requests rl + 1\<rparr>"
    show ?thesis
      using assms s a
      by (auto simp: acquire_def Let_def split: prod.splits outcome.splits bool.splits if_splits)
  next
    assume a: "o1 \<noteq> Returned True \<and> rl1 = rl"
    show ?thesis
      using assms s a
      by (auto simp: acquire_def Let_def split: prod.splits outcome.splits bool.splits if_splits)
  qed
qed

lemma run_limiter_op_slots:
  assumes "slots_ok rl" "run_limiter_op fuel clk x i rl = (out, i', rl')"
  shows "slots_ok rl' \<and> max_concurrent rl' = max_concurrent rl"
proof (cases x)
  case (Acquire n t)
  then have "acquire fuel clk n t i rl = (out, i', rl')" using assms(2) by simp
  from acquire_active [OF this] show ?thesis using assms(1) by (auto simp: slots_ok_def)
next
  case (Release a)
  then show ?thesis using assms by (auto simp: slots_ok_def release_def)
qed

lemma run_limiter_ops_slots:
  "slots_ok rl \<Longrightarrow> run_limiter_ops fuel clk ops i rl = (outs, i', rl') \<Longrightarrow>
   slots_ok rl' \<and> max_concurrent rl' = max_concurrent rl"
proof (induction ops arbitrary: i rl outs)
  case Nil
  then show ?case by simp
next
  case (Cons x xs)
  obtain out i1 rl1 where r: "run_limiter_op fuel clk x i rl = (out, i1, rl1)"
    by (cases "run_limiter_op fuel clk x i rl")
  have ok1: "slots_ok rl1 \<and> max_concurrent rl1 = max_concurrent rl"
    using run_limiter_op_slots [OF Cons.prems(1) r] .
  show ?case
  proof (cases "out = Pending")
    case True
    then show ?thesis using Cons.prems(2) r ok1 by simp
  next
    case False
    obtain outs2 i2 rl2 where r2: "run_limiter_ops fuel clk xs i1 rl1 = (outs2, i2, rl2)"
      by (cases "run_limiter_ops fuel clk xs i1 rl1")
    have "rl2 = rl' \<and> i2 = i'" using Cons.prems(2) r r2 False by (cases out) simp_all
    then have "run_limiter_ops fuel clk xs i1 rl1 = (outs2, i', rl')" using r2 by simp
    then show ?thesis using Cons.IH [of rl1 i1 outs2] ok1 by simp
  qed
qed

text \<open>
  C8. Whatever \<open>acquire\<close> and \<open>release\<close> calls are run one after the other on a limiter
  built by \<open>RateLimiter.__init__\<close> with a non-negative \<open>max_concurrent\<close>, and wherever a
  wait is cut off, \<open>active_requests\<close> is between 0 and \<open>max_concurrent\<close>; extra calls
  of \<open>release\<close> leave it at 0.
\<close>

theorem active_requests_bounded:
  assumes "0 \<le> cfg_max_concurrent config"
  shows "0 \<le> active_requests (snd (snd (run_limiter_ops fuel clk ops 2
                (RateLimiter_init config (clk 0) (clk 1))))) \<and>
         active_requests (snd (snd (run_limiter_ops fuel clk ops 2
                (RateLimiter_init config (clk 0) (clk 1))))) \<le> cfg_max_concurrent config"
proof -
  have init: "slots_ok (RateLimiter_init config (clk 0) (clk 1))"
    using assms by (simp add: slots_ok_def RateLimiter_init_def)
  obtain outs i' rl' where
    r: "run_limiter_ops fuel clk ops 2 (RateLimiter_init config (clk 0) (clk 1)) = (outs, i', rl')"
    by (cases "run_limiter_ops fuel clk ops 2 (RateLimiter_init config (clk 0) (clk 1))")
  from run_limiter_ops_slots [OF init r] show ?thesis
    using r by (simp add: slots_ok_def RateLimiter_init_def)
qed

theorem active_requests_bounded_witness:
  "0 \<le> active_requests (snd (snd (run_limiter_ops 5 clock_seconds
            [Release None, Acquire 1000 (Some 30), Acquire 1000 (Some 30),
             Release None, Release None, Release None] 2
            (RateLimiter_init
               \<lparr>requests_per_minute = 60, tokens_per_minute = 150000, cfg_max_concurrent = 2\<rparr>
               (clock_seconds 0) (clock_seconds 1))))) \<and>
   active_requests (snd (snd (run_limiter_ops 5 clock_seconds
            [Release None, Acquire 1000 (Some 30), Acquire 1000 (Some 30),
             Release None, Release None, Release None] 2
            (RateLimiter_init
               \<lparr>requests_per_minute = 60, tokens_per_minute = 150000, cfg_max_concurrent = 2\<rparr>
               (clock_seconds 0) (clock_seconds 1)))))
     \<le> cfg_max_concurrent
          \<lparr>requests_per_minute = 60, tokens_per_minute = 150000, cfg_max_concurrent = 2\<rparr>"
  by (rule active_requests_bounded) simp

text \<open>
  C3, amended. When a slot has been claimed and both waits return, \<open>acquire\<close> answers
  True exactly when both waits did; then the counter is one higher and the request is
  recorded. Otherwise it answers False and the limiter is the one before the call but for
  the two buckets, which stay as the waits left them: the slot is given back, the tokens a
  successful wait consumed are not.
\<close>

theorem acquire_slot_rollback:
  assumes "slot_loop fuel clk t (clk i) (i + 1) rl = (Returned True, i1, rl1)"
    and "wait_for_tokens fuel clk 1 t i1 (request_bucket rl) = (Returned ra, i2, rb)"
    and "wait_for_tokens fuel clk n t i2 (token_bucket rl) = (Returned ta, i3, tb)"
  shows "acquire fuel clk n t i rl =
           (if ra \<and> ta
            then (Returned True, i3,
                  rl\<lparr>request_bucket := rb, token_bucket := tb,
                      active_requests := active_requests rl + 1,
                      request_history := deque_append 1000 (request_history rl) n\<rparr>)
            else (Returned False, i3, rl\<lparr>request_bucket := rb, token_bucket := tb\<rparr>))"
proof -
  have rl1: "rl1 = rl\<lparr>active_requests := active_requests rl + 1\<rparr>"
    using slot_loop_result [OF assms(1)] by simp
  show ?thesis
    using assms by (simp add: acquire_def Let_def rl1)
qed

theorem acquire_slot_rollback_witness:
  "acquire 5 clock_seconds 2000 (Some 1) 2 limiter_small =
     (Returned False, 8,
      limiter_small
        \<lparr>request_bucket := \<lparr>capacity = 60, refill_rate = 1, tokens = 59, last_refill = 4\<rparr>,
         token_bucket :=
           \<lparr>capacity = 1000, refill_rate = 50 / 3, tokens = 1000, last_refill = 6\<rparr>\<rparr>)"
proof -
  have s: "slot_loop 5 clock_seconds (Some 1) (clock_seconds 2) (2 + 1) limiter_small =
             (Returned True, 3, limiter_small\<lparr>active_requests := 1\<rparr>)"
    by code_simp
  have r: "wait_for_tokens 5 clock_seconds 1 (Some 1) 3 (request_bucket limiter_small) =
             (Returned True, 5, \<lparr>capacity = 60, refill_rate = 1, tokens = 59, last_refill = 4\<rparr>)"
    by code_simp
  have t: "wait_for_tokens 5 clock_seconds 2000 (Some 1) 5 (token_bucket limiter_small) =
             (Returned False, 8,
              \<lparr>capacity = 1000, refill_rate = 50 / 3, tokens = 1000, last_refill = 6\<rparr>)"
    by code_simp
  from acquire_slot_rollback [OF s r t] show ?thesis by simp
qed

text \<open>
  The request bucket waits first and hands out its token; the cost bucket then times out.
  \<open>acquire\<close> answers False, and the request bucket is left with 59 tokens at its refill
  stamp 4, where the untouched bucket would hold 60.
\<close>

theorem acquire_no_refund_counterexample:
  "fst (acquire 5 clock_seconds 2000 (Some 1) 2 limiter_small) = Returned False \<and>
   active_requests (snd (snd (acquire 5 clock_seconds 2000 (Some 1) 2 limiter_small))) =
     active_requests limiter_small \<and>
   request_bucket (snd (snd (acquire 5 clock_seconds 2000 (Some 1) 2 limiter_small))) =
     \<lparr>capacity = 60, refill_rate = 1, tokens = 59, last_refill = 4\<rparr> \<and>
   refill 4 (request_bucket limiter_small) =
     \<lparr>capacity = 60, refill_rate = 1, tokens = 60, last_refill = 4\<rparr>"
  by code_simp

lemma acquire_timeout_zero_never_fails:
  "fst (acquire fuel clk n (Some 0) i rl) \<noteq> Returned False"
proof -
  have nt: "\<not> truthy (Some 0)" by (simp add: truthy_def)
  show ?thesis
    using slot_loop_not_False [OF nt, of fuel clk "clk i" "i + 1" rl]
      wait_for_tokens_not_False [OF nt]
    by (auto simp: acquire_def Let_def split: prod.splits outcome.splits bool.splits)
qed

lemma limiter_after_0: "limiter_after 0 = limiter_scenario_C"
  by (simp add: limiter_after_def limiter_scenario_C_def RateLimiter_init_def TokenBucket_init_def)

lemma acquire_scenario_C_step:
  assumes "k < 60"
  shows "acquire 1 clock_scenario_C 1000 (Some 0) (2 + 5 * k) (limiter_after k) =
           (Returned True, 2 + 5 * Suc k, limiter_after (Suc k))"
proof -
  have c: "\<And>j. j \<le> 302 \<Longrightarrow> clock_scenario_C j = 0"
    by (simp add: clock_scenario_C_def)
  have r: "rat_of_nat k \<le> 59" using assms by simp
  have r2: "rat_of_nat k * 1000 \<le> 149000" using r by simp
  show ?thesis
    using assms r r2
    by (simp add: acquire_def wait_for_tokens_def consume_def refill_def Let_def truthy_def
        deque_append_def limiter_after_def c replicate_append_same algebra_simps)
qed

lemma run_scenario_C:
  "m + k \<le> 60 \<Longrightarrow>
   run_limiter_ops 1 clock_scenario_C (replicate k (Acquire 1000 (Some 0))) (2 + 5 * m)
     (limiter_after m) =
   (replicate k (Returned True), 2 + 5 * (m + k), limiter_after (m + k))"
proof (induction k arbitrary: m)
  case 0
  then show ?case by simp
next
  case (Suc k)
  have "m < 60" using Suc.prems by simp
  from acquire_scenario_C_step [OF this] Suc.IH [of "Suc m"] Suc.prems
  show ?case by simp
qed

text \<open>
  C4. In scenario C the sixty calls of \<open>acquire(timeout=0)\<close> answer True and empty the
  request bucket. The sixty-first call does not fail: a timeout of 0 is false in the
  test \<open>if timeout and ...\<close>, so the call waits in \<open>wait_for_tokens\<close> (still waiting
  after four rounds) until the bucket has refilled to one token, and answers True. No
  clock makes it answer False.
\<close>

theorem scenario_C_sixty_first_acquire_waits:
  "run_limiter_ops 1 clock_scenario_C (replicate 60 (Acquire 1000 (Some 0))) 2
     limiter_scenario_C =
     (replicate 60 (Returned True), 302, limiter_after 60) \<and>
   tokens (request_bucket (limiter_after 60)) = 0 \<and>
   fst (acquire 4 clock_scenario_C 1000 (Some 0) 302 (limiter_after 60)) = Pending \<and>
   fst (acquire 5 clock_scenario_C 1000 (Some 0) 302 (limiter_after 60)) = Returned True \<and>
   (\<forall>fuel clk. fst (acquire fuel clk 1000 (Some 0) 302 (limiter_after 60)) \<noteq> Returned False)"
proof -
  have "run_limiter_ops 1 clock_scenario_C (replicate 60 (Acquire 1000 (Some 0))) 2
          limiter_scenario_C = (replicate 60 (Returned True), 302, limiter_after 60)"
    using run_scenario_C [of 0 60] by (simp add: limiter_after_0)
  moreover have "tokens (request_bucket (limiter_after 60)) = 0"
    by (simp add: limiter_after_def)
  moreover have "fst (acquire 4 clock_scenario_C 1000 (Some 0) 302 (limiter_after 60)) = Pending"
    by code_simp
  moreover have
    "fst (acquire 5 clock_scenario_C 1000 (Some 0) 302 (limiter_after 60)) = Returned True"
    by code_simp
  ultimately show ?thesis
    using acquire_timeout_zero_never_fails by blast
qed

section \<open>BaseAgent.invoke_llm and a denied acquisition\<close>

text \<open>
  C9. In an attempt of \<open>invoke_llm\<close> whose \<open>acquire\<close> answers False, the handler calls
  \<open>release\<close>: the limiter after the attempt is the released one, its counter is the
  counter before the attempt minus one (not below 0) although the attempt holds no slot,
  and the attempt goes on to the next one unless it was the last.
\<close>

theorem denied_acquire_still_releases:
  assumes "acquire fuel clk 1000 (Some 30) i (rate_limiter ag) = (Returned False, i1, rl1)"
  shows "rate_limiter (snd (snd (invoke_llm_attempt fuel clk llm max_retries attempt i ag))) =
           release None rl1 \<and>
         active_requests (release None rl1) = max 0 (active_requests (rate_limiter ag) - 1) \<and>
         fst (invoke_llm_attempt fuel clk llm max_retries attempt i ag) =
           (if attempt = max_retries - 1
            then Some (Raised (RuntimeError ''Rate limit exceeded'')) else None)"
proof -
  have "active_requests rl1 = active_requests (rate_limiter ag)"
    using acquire_active [OF assms] by simp
  then show ?thesis
    using assms by (simp add: invoke_llm_attempt_def handle_failure_def release_def Let_def)
qed

theorem denied_acquire_still_releases_witness:
  "active_requests (rate_limiter agent_all_slots_taken) = 5 \<and>
   fst (acquire 3 clock_minutes 1000 (Some 30) 2 (rate_limiter agent_all_slots_taken)) =
     Returned False \<and>
   active_requests (rate_limiter (snd (snd
     (invoke_llm_attempt 3 clock_minutes llm_down 3 0 2 agent_all_slots_taken)))) = 4 \<and>
   fst (invoke_llm_attempt 3 clock_minutes llm_down 3 0 2 agent_all_slots_taken) = None"
proof -
  have a: "acquire 3 clock_minutes 1000 (Some 30) 2 (rate_limiter agent_all_slots_taken) =
        (Returned False, 4, rate_limiter agent_all_slots_taken)"
    by code_simp
  have b: "active_requests (rate_limiter agent_all_slots_taken) = 5"
    by (simp add: agent_all_slots_taken_def)
  from denied_acquire_still_releases [OF a, of llm_down 3 0] a b
  show ?thesis by simp
qed

section \<open>The decision of the reviewer\<close>

text \<open>
  C5, amended. The decision depends on the score and the issues only, and the check for
  a critical keyword comes first: an issue with a critical keyword gives reject whatever
  the score; without one, a score of at least 0.85 with at most 3 issues or of at least
  0.75 with at most 2 issues gives approve, a score below 0.4 gives reject, and
  everything else gives request_revision.
\<close>

theorem make_decision_table:
  "(make_decision s I d = ''approve'' \<longleftrightarrow>
      \<not> has_critical I \<and> (s \<ge> 0.85 \<and> length I \<le> 3 \<or> s \<ge> 0.75 \<and> length I \<le> 2)) \<and>
   (make_decision s I d = ''reject'' \<longleftrightarrow> has_critical I \<or> s < 0.4) \<and>
   (make_decision s I d = ''request_revision'' \<longleftrightarrow>
      \<not> has_critical I \<and> 0.4 \<le> s \<and> \<not> (s \<ge> 0.85 \<and> length I \<le> 3) \<and>
      \<not> (s \<ge> 0.75 \<and> length I \<le> 2)) \<and>
   make_decision s I d = make_decision s I d'"
  by (auto simp: make_decision_def)

theorem make_decision_table_witness:
  "make_decision 0.9 [''Typo in the title'', ''Second paragraph is long''] ''reject'' = ''approve'' \<and>
   make_decision 0.8 [''a'', ''b'', ''c''] ''approve'' = ''request_revision'' \<and>
   make_decision 0.3 [] ''approve'' = ''reject'' \<and>
   make_decision 0.9 [''Section 2 is FABRICATED''] ''approve'' = ''reject''"
proof -
  have c1: "\<not> has_critical [''Typo in the title'', ''Second paragraph is long'']"
    by code_simp
  have c2: "\<not> has_critical [''a'', ''b'', ''c'']"
    by code_simp
  have c3: "\<not> has_critical []"
    by code_simp
  have c4: "has_critical [''Section 2 is FABRICATED'']"
    by code_simp
  show ?thesis
    using make_decision_table [of "0.9" "[''Typo in the title'', ''Second paragraph is long'']" "''reject''"]
      make_decision_table [of "0.8" "[''a'', ''b'', ''c'']" "''approve''"]
      make_decision_table [of "0.3" "[]" "''approve''"]
      make_decision_table [of "0.9" "[''Section 2 is FABRICATED'']" "''approve''"]
      c1 c2 c3 c4
    by simp
qed

text \<open>
  A score of 0.9 with a single issue meets the first approve rule, but the issue names
  plagiarism and the decision is reject.
\<close>

theorem make_decision_counterexample:
  "(9 / 10 :: rat) \<ge> 0.85 \<and> length [''Possible plagiarism in section 2''] \<le> 3 \<and>
   make_decision (9 / 10) [''Possible plagiarism in section 2''] ''approve'' = ''reject''"
  by code_simp

section \<open>The fallback decision\<close>

text \<open>
  C6. The fallback is called from \<open>_make_routing_decision\<close> only, which \<open>execute\<close>
  reaches only when the test of the bounds has not forced finish. On every such state
  the next agent of the fallback decision follows the rule table on which outputs are
  there: no research, researcher; research but no draft, content creator; a draft but no
  review, reviewer; a review that asks for a revision with revisions left, content
  creator; otherwise finish. When the router fails, this is the decision taken. The
  decision is a function of the state alone: the \<open>max_iterations\<close> setting of the
  environment does not change it.
\<close>

theorem fallback_decision_rule_table:
  assumes "\<not> should_finish env s"
  shows "d_next_agent (fallback_decision (max_iterations env) s) =
           (if research_findings s = [] then ''researcher''
            else if content_draft s = [] then ''content_creator''
            else if review_feedback s = [] then ''reviewer''
            else if review_decision s = ''request_revision'' \<and> revision_count s < max_revisions
            then ''content_creator''
            else ''finish'') \<and>
         (router env s = None \<longrightarrow>
            make_routing_decision env s = fallback_decision (max_iterations env) s) \<and>
         (\<not> should_finish env' s \<longrightarrow>
            fallback_decision (max_iterations env') s = fallback_decision (max_iterations env) s)"
  using assms
  by (simp add: fallback_decision_def should_finish_def max_revisions_def
      make_routing_decision_def)

theorem fallback_decision_rule_table_witness:
  "d_next_agent (fallback_decision (max_iterations env_base) initial_state) = ''researcher'' \<and>
   d_next_agent (fallback_decision (max_iterations env_base)
      (initial_state\<lparr>research_findings := ''Findings''\<rparr>)) = ''content_creator'' \<and>
   make_routing_decision env_base initial_state =
     fallback_decision (max_iterations env_always_researcher) initial_state"
proof -
  have h1: "\<not> should_finish env_base initial_state"
    by (simp add: should_finish_def env_base_def initial_state_def create_initial_state_def)
  have h2: "\<not> should_finish env_base (initial_state\<lparr>research_findings := ''Findings''\<rparr>)"
    by (simp add: should_finish_def env_base_def initial_state_def create_initial_state_def)
  have h3: "\<not> should_finish env_always_researcher initial_state"
    by (simp add: should_finish_def env_always_researcher_def env_base_def initial_state_def
        create_initial_state_def)
  have h4: "router env_base initial_state = None"
    by (simp add: env_base_def)
  show ?thesis
    using fallback_decision_rule_table [OF h1, of env_always_researcher]
      fallback_decision_rule_table [OF h2, of env_base] h3 h4
    by (simp add: initial_state_def create_initial_state_def)
qed

section \<open>The control loop\<close>

lemma route_cases:
  "route_from_supervisor s = ''researcher'' \<or> route_from_supervisor s = ''content_creator'' \<or>
   route_from_supervisor s = ''reviewer'' \<or> route_from_supervisor s = ''finish''"
  by (simp add: route_from_supervisor_def Let_def)

lemma route_finish: "next_agent s = ''finish'' \<Longrightarrow> route_from_supervisor s = ''finish''"
  by (simp add: route_from_supervisor_def Let_def)

lemma supervisor_node_finish:
  assumes "should_finish env s"
  shows "next_agent (apply_update s (supervisor_node env s)) = ''finish''"
    and "workflow_status (apply_update s (supervisor_node env s)) = ''completed''"
  using assms
  by (simp_all add: supervisor_node_def supervisor_execute_def apply_update_def dict_update_def
      increment_iteration_def)


lemma supervisor_node_status:
  "workflow_status (apply_update s (supervisor_node env s)) = ''completed'' \<or>
   workflow_status (apply_update s (supervisor_node env s)) = workflow_status s"
  by (simp add: supervisor_node_def supervisor_execute_def apply_update_def dict_update_def
      increment_iteration_def add_message_def Let_def)

lemma researcher_keeps:
  "iteration_count (apply_update s (researcher_execute env s)) = iteration_count s"
  "workflow_status (apply_update s (researcher_execute env s)) = workflow_status s"
  by (simp_all add: researcher_execute_def apply_update_def dict_update_def add_message_def
      split: sum.splits)

lemma content_creator_keeps:
  "iteration_count (apply_update s (content_creator_execute env s)) = iteration_count s"
  "workflow_status (apply_update s (content_creator_execute env s)) = workflow_status s"
  by (simp_all add: content_creator_execute_def apply_update_def dict_update_def add_message_def
      split: sum.splits)

lemma reviewer_keeps:
  "iteration_count (apply_update s (reviewer_execute env s)) = iteration_count s"
  "workflow_status (apply_update s (reviewer_execute env s)) = workflow_status s"
  by (simp_all add: reviewer_execute_def apply_update_def dict_update_def add_message_def Let_def
      split: sum.splits prod.splits)

lemma run_graph_Suc:
  "run_graph (Suc fuel) env s =
     (if route_from_supervisor (apply_update s (supervisor_node env s)) = ''researcher''
      then run_graph fuel env
             (apply_update (apply_update s (supervisor_node env s))
                (researcher_execute env (apply_update s (supervisor_node env s))))
      else if route_from_supervisor (apply_update s (supervisor_node env s)) = ''content_creator''
      then run_graph fuel env
             (apply_update (apply_update s (supervisor_node env s))
                (content_creator_execute env (apply_update s (supervisor_node env s))))
      else if route_from_supervisor (apply_update s (supervisor_node env s)) = ''reviewer''
      then run_graph fuel env
             (apply_update (apply_update s (supervisor_node env s))
                (reviewer_execute env (apply_update s (supervisor_node env s))))
      else Some (apply_update s (supervisor_node env s)))"
  by (simp add: Let_def)

lemma run_graph_forced_finish:
  assumes "should_finish env s"
  shows "run_graph (Suc fuel) env s = Some (apply_update s (supervisor_node env s))"
proof -
  have "route_from_supervisor (apply_update s (supervisor_node env s)) = ''finish''"
    using supervisor_node_finish(1) [OF assms] by (rule route_finish)
  then show ?thesis by (simp only: run_graph_Suc) simp
qed


lemma run_graph_status:
  "run_graph fuel env s = Some s' \<Longrightarrow>
   workflow_status s' = ''completed'' \<or> workflow_status s' = workflow_status s"
proof (induction fuel arbitrary: s)
  case 0
  then show ?case by simp
next
  case (Suc fuel)
  define s1 where "s1 = apply_update s (supervisor_node env s)"
  have st1: "workflow_status s1 = ''completed'' \<or> workflow_status s1 = workflow_status s"
    unfolding s1_def by (rule supervisor_node_status)
  consider (r) "route_from_supervisor s1 = ''researcher''"
    | (c) "route_from_supervisor s1 = ''content_creator''"
    | (v) "route_from_supervisor s1 = ''reviewer''"
    | (f) "route_from_supervisor s1 = ''finish''"
    using route_cases by blast
  then show ?case
  proof cases
    case r
    then have "run_graph fuel env (apply_update s1 (researcher_execute env s1)) = Some s'"
      using Suc.prems by (simp only: run_graph_Suc s1_def) simp
    from Suc.IH [OF this] show ?thesis using st1 by (auto simp: researcher_keeps)
  next
    case c
    then have "run_graph fuel env (apply_update s1 (content_creator_execute env s1)) = Some s'"
      using Suc.prems by (simp only: run_graph_Suc s1_def) simp
    from Suc.IH [OF this] show ?thesis using st1 by (auto simp: content_creator_keeps)
  next
    case v
    then have "run_graph fuel env (apply_update s1 (reviewer_execute env s1)) = Some s'"
      using Suc.prems by (simp only: run_graph_Suc s1_def) simp
    from Suc.IH [OF this] show ?thesis using st1 by (auto simp: reviewer_keeps)
  next
    case f
    then have "s' = s1"
      using Suc.prems by (simp only: run_graph_Suc s1_def) simp
    then show ?thesis using st1 by simp
  qed
qed







section \<open>The status at the end of a run\<close>

lemma scenario_A_step:
  assumes "max_iterations env = 5" and "always_drafter env"
    and "scenario_A_inv n s" and "n < 5"
  shows "\<exists>s2. (\<forall>fuel. run_graph (Suc fuel) env s = run_graph fuel env s2) \<and>
              scenario_A_inv (Suc n) s2"
proof -
  obtain d where d: "router env s = Some d" "d_next_agent d = ''content_creator''"
    using assms(2) by (auto simp: always_drafter_def)
  define s1 where "s1 = apply_update s (supervisor_node env s)"
  have nf: "\<not> should_finish env s"
    using assms(1,3,4) by (simp add: should_finish_def scenario_A_inv_def)
  have s1: "s1 = s\<lparr>current_agent := ''supervisor'', next_agent := ''content_creator'',
                  messages := messages s @
                    [\<lparr>sender = ''supervisor'', recipient = ''content_creator'',
                      content = d_instructions d, message_type = ''task''\<rparr>],
                  iteration_count := iteration_count s + 1\<rparr>"
    unfolding s1_def using nf d assms(1,3,4)
    by (simp add: supervisor_node_def supervisor_execute_def make_routing_decision_def
        apply_update_def dict_update_def increment_iteration_def add_message_def Let_def
        scenario_A_inv_def)
  have route: "route_from_supervisor s1 = ''content_creator''"
    by (simp add: s1 route_from_supervisor_def Let_def)
  define s2 where "s2 = apply_update s1 (content_creator_execute env s1)"
  have run: "\<forall>fuel. run_graph (Suc fuel) env s = run_graph fuel env s2"
    using route by (simp only: run_graph_Suc s1_def [symmetric] s2_def) simp
  have inv1: "iteration_count s1 = int (Suc n)" "revision_count s1 = 0"
    "review_decision s1 = ''request_revision''" "final_output s1 = []"
    "workflow_status s1 = ''running''" "sent_by ''supervisor'' s1 = Suc n"
    "sent_by ''content_creator'' s1 = sent_by ''content_creator'' s"
    "length (messages s1) = Suc (length (messages s))"
    using assms(3) by (simp_all add: s1 scenario_A_inv_def sent_by_def)
  have "scenario_A_inv (Suc n) s2"
  proof (cases "creator_run env s1")
    case (Inl e)
    then have "s2 = s1\<lparr>current_agent := ''content_creator'',
                       content_draft := ''Content creation failed: '' @ e,
                       errors := errors s1 @ [''Content creation error: '' @ e]\<rparr>"
      unfolding s2_def by (simp add: content_creator_execute_def apply_update_def)
    then show ?thesis
      using inv1 assms(3) by (simp add: scenario_A_inv_def sent_by_def)
  next
    case (Inr out)
    then have "s2 = s1\<lparr>current_agent := ''content_creator'',
                       content_draft := co_content out,
                       content_version := content_version s1 + 1,
                       content_type := content_type s1,
                       messages := messages s1 @
                         [\<lparr>sender = ''content_creator'', recipient = ''supervisor'',
                           content = ''Content created ('' @ fmt_int env (co_word_count out) @
                             '' words, '' @ fmt_int env (co_sources_cited out) @
                             '' sources cited)'',
                           message_type = ''result''\<rparr>]\<rparr>"
      unfolding s2_def
      by (simp add: content_creator_execute_def apply_update_def dict_update_def add_message_def)
    then show ?thesis
      using inv1 assms(3) by (simp add: scenario_A_inv_def sent_by_def)
  qed
  then show ?thesis using run by blast
qed

lemma scenario_A_run:
  assumes "max_iterations env = 5" and "always_drafter env"
  shows "n \<le> 5 \<Longrightarrow> scenario_A_inv n s \<Longrightarrow>
         \<exists>s'. run_graph (Suc (5 - n)) env s = Some s' \<and> iteration_count s' = 5 \<and>
              workflow_status s' = ''completed'' \<and> final_output s' = [] \<and>
              sent_by ''supervisor'' s' = 5 \<and> sent_by ''content_creator'' s' \<le> 5 \<and>
              length (messages s') = 5 + sent_by ''content_creator'' s'"
proof (induction "5 - n" arbitrary: n s)
  case 0
  then have n: "n = 5" by simp
  have sf: "should_finish env s"
    using "0.prems"(2) assms(1) n by (simp add: should_finish_def scenario_A_inv_def)
  have "apply_update s (supervisor_node env s) =
          s\<lparr>next_agent := ''finish'', workflow_status := ''completed'',
            warnings := warnings s @ [''Max iterations reached'']\<rparr>"
    using "0.prems"(2) assms(1) n
    by (simp add: supervisor_node_def apply_update_def scenario_A_inv_def)
  then show ?case
    using run_graph_forced_finish [OF sf, of 0] "0.prems"(2) n
    by (simp add: scenario_A_inv_def sent_by_def)
next
  case (Suc k)
  then have n: "n < 5" "k = 5 - Suc n" "Suc n \<le> 5" by simp_all
  obtain s2 where s2: "\<forall>fuel. run_graph (Suc fuel) env s = run_graph fuel env s2"
    "scenario_A_inv (Suc n) s2"
    using scenario_A_step [OF assms Suc.prems(2) n(1)] by blast
  have "Suc (5 - n) = Suc (Suc (5 - Suc n))" using n(1) by simp
  then have "run_graph (Suc (5 - n)) env s = run_graph (Suc (5 - Suc n)) env s2"
    using s2(1) by simp
  then show ?case using Suc.hyps(1) [OF n(2) n(3) s2(2)] by simp
qed

lemma initial_inv: "scenario_A_inv 0 (create_initial_state t c)"
  by (simp add: scenario_A_inv_def create_initial_state_def sent_by_def)

text \<open>
  C2, amended. When the test of the bounds forces finish, the status becomes completed,
  with or without a final output; no node sets failed, so a run ends with the status
  completed or with the status it started with. In scenario A (five iterations allowed, a
  router that always chooses the content creator) the run ends at the sixth supervisor
  visit with \<open>iteration_count\<close> 5, status completed, five messages of the supervisor and
  one message for every run of the content creator that succeeded.
\<close>

theorem forced_finish_is_completed:
  "(should_finish env s \<longrightarrow>
      workflow_status (apply_update s (supervisor_node env s)) = ''completed'') \<and>
   (run_graph fuel env s = Some s' \<longrightarrow>
      workflow_status s' = ''completed'' \<or> workflow_status s' = workflow_status s) \<and>
   (max_iterations env = 5 \<and> always_drafter env \<longrightarrow>
      (\<exists>s'. run_graph 6 env (create_initial_state t c) = Some s' \<and> iteration_count s' = 5 \<and>
            workflow_status s' = ''completed'' \<and>
            sent_by ''supervisor'' s' = 5 \<and> sent_by ''content_creator'' s' \<le> 5 \<and>
            length (messages s') = 5 + sent_by ''content_creator'' s'))"
proof (intro conjI impI)
  assume "should_finish env s"
  then show "workflow_status (apply_update s (supervisor_node env s)) = ''completed''"
    by (rule supervisor_node_finish(2))
next
  assume "run_graph fuel env s = Some s'"
  then show "workflow_status s' = ''completed'' \<or> workflow_status s' = workflow_status s"
    by (rule run_graph_status)
next
  assume a: "max_iterations env = 5 \<and> always_drafter env"
  have "\<exists>s'. run_graph (Suc (5 - 0)) env (create_initial_state t c) = Some s' \<and>
            iteration_count s' = 5 \<and>
            workflow_status s' = ''completed'' \<and> final_output s' = [] \<and>
            sent_by ''supervisor'' s' = 5 \<and> sent_by ''content_creator'' s' \<le> 5 \<and>
            length (messages s') = 5 + sent_by ''content_creator'' s'"
    using a by (intro scenario_A_run [OF _ _ _ initial_inv]) simp_all
  then obtain s2 where "run_graph 6 env (create_initial_state t c) = Some s2"
    "iteration_count s2 = 5" "workflow_status s2 = ''completed''"
    "sent_by ''supervisor'' s2 = 5" "sent_by ''content_creator'' s2 \<le> 5"
    "length (messages s2) = 5 + sent_by ''content_creator'' s2"
    by (auto simp: eval_nat_numeral)
  then show "\<exists>s'. run_graph 6 env (create_initial_state t c) = Some s' \<and> iteration_count s' = 5 \<and>
            workflow_status s' = ''completed'' \<and>
            sent_by ''supervisor'' s' = 5 \<and> sent_by ''content_creator'' s' \<le> 5 \<and>
            length (messages s') = 5 + sent_by ''content_creator'' s'"
    by blast
qed

theorem forced_finish_is_completed_witness:
  "workflow_status (apply_update state_revisions_spent
      (supervisor_node env_scenario_A state_revisions_spent)) = ''completed'' \<and>
   map_option workflow_status (run_graph 6 env_scenario_A initial_state) = Some ''completed'' \<and>
   map_option iteration_count (run_graph 6 env_scenario_A initial_state) = Some 5 \<and>
   map_option (sent_by ''supervisor'') (run_graph 6 env_scenario_A initial_state) = Some 5"
proof -
  have h1: "should_finish env_scenario_A state_revisions_spent"
    by (simp add: should_finish_def state_revisions_spent_def)
  have h2: "max_iterations env_scenario_A = 5 \<and> always_drafter env_scenario_A"
    by (simp add: env_scenario_A_def env_base_def always_drafter_def drafter_decision_def)
  have a: "workflow_status (apply_update state_revisions_spent
      (supervisor_node env_scenario_A state_revisions_spent)) = ''completed''"
    using forced_finish_is_completed [where s = state_revisions_spent
        and env = env_scenario_A] h1
    by blast
  obtain s' where "run_graph 6 env_scenario_A initial_state = Some s'"
    "iteration_count s' = 5" "workflow_status s' = ''completed''"
    "sent_by ''supervisor'' s' = 5"
    using forced_finish_is_completed [where env = env_scenario_A
        and t = "''Explain token buckets''" and c = "[]"] h2
    unfolding initial_state_def by blast
  then show ?thesis using a by simp
qed

text \<open>
  Scenario A with a content creator that succeeds ends with the status completed and ten
  messages; and with a router that always chooses the researcher the run ends completed
  with neither a draft nor a final output.
\<close>

theorem scenario_A_counterexample:
  "map_option workflow_status (run_graph 6 env_scenario_A initial_state) = Some ''completed'' \<and>
   map_option iteration_count (run_graph 6 env_scenario_A initial_state) = Some 5 \<and>
   map_option final_output (run_graph 6 env_scenario_A initial_state) = Some [] \<and>
   map_option (length \<circ> messages) (run_graph 6 env_scenario_A initial_state) = Some 10 \<and>
   map_option workflow_status (run_graph 4 env_always_researcher initial_state) =
     Some ''completed'' \<and>
   map_option content_draft (run_graph 4 env_always_researcher initial_state) = Some [] \<and>
   map_option final_output (run_graph 4 env_always_researcher initial_state) = Some []"
  by code_simp

end
